theory Spec2Isabelle
  imports Complex_Main "HOL-Library.Product_Lexorder" "HOL-Library.List_Lexorder"
begin

section \<open>ebisu-bench: replaying Anki review logs through the Ebisu scheduler\<close>

text \<open>
  A shallow embedding of \<^verbatim>\<open>src/ebisu_bench.py\<close>. Python integers are \<^typ>\<open>int\<close>,
  Python floats that stand for times are \<^typ>\<open>real\<close> (their rounding is not modelled),
  strings are \<^typ>\<open>string\<close>, and \<^verbatim>\<open>None\<close>-or-value is an \<^typ>\<open>'a option\<close>.
  An exception raised by the program's own code is the \<open>Inl\<close> branch of a sum.
\<close>

subsection \<open>The Ebisu library, as the program uses it\<close>

text \<open>
  \<^verbatim>\<open>from ebisu import ebisu\<close>: the library is not part of the repository. The four
  functions the program calls are taken as parameters, pure functions over an opaque
  model type \<open>'m\<close>:
  \<^item> \<^verbatim>\<open>ebisu.defaultModel(t)\<close>;
  \<^item> \<^verbatim>\<open>ebisu.updateRecall(prior, successes, total, tnow)\<close>;
  \<^item> \<^verbatim>\<open>ebisu.predictRecall(prior, tnow, exact=...)\<close>, with result type \<open>'p\<close>;
  \<^item> \<^verbatim>\<open>ebisu.modelToPercentileDecay(model, percentile)\<close>, with result type \<open>'d\<close>.
\<close>

record ('m, 'p, 'd) ebisu =
  defaultModel :: "int \<Rightarrow> 'm"
  updateRecall :: "'m \<Rightarrow> int \<Rightarrow> int \<Rightarrow> int \<Rightarrow> 'm"
  predictRecall :: "'m \<Rightarrow> real \<Rightarrow> bool \<Rightarrow> 'p"
  modelToPercentileDecay :: "'m \<Rightarrow> real \<Rightarrow> 'd"

subsection \<open>Python built-ins on a list of booleans\<close>

text \<open>\<^verbatim>\<open>any(trials)\<close>: true at the first true element.\<close>

fun any_py :: "bool list \<Rightarrow> bool" where
  "any_py [] = False"
| "any_py (b # bs) = (if b then True else any_py bs)"

text \<open>\<^verbatim>\<open>sum(trials)\<close>: \<^verbatim>\<open>True\<close> counts 1 and \<^verbatim>\<open>False\<close> counts 0.\<close>

fun sum_py :: "bool list \<Rightarrow> int" where
  "sum_py [] = 0"
| "sum_py (b # bs) = (if b then 1 else 0) + sum_py bs"

text \<open>\<^verbatim>\<open>len(trials)\<close>.\<close>

definition len_py :: "'a list \<Rightarrow> int" where
  "len_py xs = int (length xs)"

subsection \<open>The review log of a card: \<^verbatim>\<open>get_review_log\<close>\<close>

text \<open>
  The database: the \<^verbatim>\<open>id\<close> column of table \<^verbatim>\<open>cards\<close>, and the rows
  \<^verbatim>\<open>(id, cid, ease)\<close> of table \<^verbatim>\<open>revlog\<close>, in the order the queries return them.
\<close>

record anki_db =
  cards :: "int list"
  revlog :: "(int \<times> int \<times> int) list"

text \<open>
  \<^verbatim>\<open>SELECT DISTINCT id FROM cards\<close>: every id once, at the place of its first occurrence
  (\<^const>\<open>remdups\<close> keeps the last occurrence, hence the two reversals).
\<close>

definition get_all_card_ids :: "anki_db \<Rightarrow> int list" where
  "get_all_card_ids conn = rev (remdups (rev (cards conn)))"

text \<open>\<^verbatim>\<open>SELECT id, ease FROM revlog WHERE cid = ?\<close>.\<close>

definition select_revlog :: "anki_db \<Rightarrow> int \<Rightarrow> (int \<times> int) list" where
  "select_revlog conn card_id =
     map (\<lambda>(rid, cid, ease). (rid, ease)) (filter (\<lambda>(rid, cid, ease). cid = card_id) (revlog conn))"

text \<open>
  \<^verbatim>\<open>reviews[timestamp].append(passed)\<close> on a \<^verbatim>\<open>collections.defaultdict(list)\<close>. The
  dictionary is an association list in insertion order with one entry per key: an
  existing key gets the value appended to its list, a new key gets a new one-element
  list at the end.
\<close>

fun append_review :: "int \<Rightarrow> bool \<Rightarrow> (int \<times> bool list) list \<Rightarrow> (int \<times> bool list) list" where
  "append_review k v [] = [(k, [v])]"
| "append_review k v ((k', vs) # rest) =
     (if k = k' then (k', vs @ [v]) # rest else (k', vs) # append_review k v rest)"

text \<open>
  The loop over the rows: the timestamp is floor-divided by 1000 (Python's \<^verbatim>\<open>//\<close> is
  \<open>div\<close> on \<^typ>\<open>int\<close>), and every button but 1 is a pass.
\<close>

fun group_reviews :: "(int \<times> bool list) list \<Rightarrow> (int \<times> int) list \<Rightarrow> (int \<times> bool list) list" where
  "group_reviews reviews [] = reviews"
| "group_reviews reviews ((timestamp, button) # rows) =
     (let timestamp' = timestamp div 1000;
          passed = (button \<noteq> 1)
      in group_reviews (append_review timestamp' passed reviews) rows)"

text \<open>
  \<^verbatim>\<open>sorted(reviews.items())\<close>: the items are pairs, compared lexicographically (the
  timestamp first, then the list of booleans, itself lexicographic with
  \<^verbatim>\<open>False < True\<close>), which is the order of \<^typ>\<open>int \<times> bool list\<close> here.
\<close>

definition review_sessions :: "(int \<times> int) list \<Rightarrow> (int \<times> bool list) list" where
  "review_sessions rows = sort (group_reviews [] rows)"

definition get_review_log :: "anki_db \<Rightarrow> int \<Rightarrow> (int \<times> bool list) list" where
  "get_review_log conn card_id = review_sessions (select_revlog conn card_id)"

subsection \<open>\<^verbatim>\<open>class EbisuCard\<close>\<close>

text \<open>A card as \<^verbatim>\<open>emulate\<close> fills it: all four attributes set.\<close>

record 'm EbisuCard =
  card_id :: int
  review_log :: "(int \<times> bool list) list"
  model :: 'm
  last_review :: int

text \<open>
  One iteration of the loop of \<^verbatim>\<open>emulate\<close>, on the pair of the local variables
  \<^verbatim>\<open>current\<close> and \<^verbatim>\<open>last_review\<close>.
\<close>

fun emulate_step ::
  "('m, 'p, 'd) ebisu \<Rightarrow> 'm \<times> int option \<Rightarrow> int \<times> bool list \<Rightarrow> 'm \<times> int option" where
  "emulate_step eng (current, None) (timestamp, trials) =
     (if any_py trials then (current, Some timestamp) else (current, None))"
| "emulate_step eng (current, Some last_rev) (timestamp, trials) =
     (let tnow = timestamp - last_rev
      in (updateRecall eng current (sum_py trials) (len_py trials) tnow, Some timestamp))"

fun emulate_loop ::
  "('m, 'p, 'd) ebisu \<Rightarrow> 'm \<times> int option \<Rightarrow> (int \<times> bool list) list \<Rightarrow> 'm \<times> int option" where
  "emulate_loop eng st [] = st"
| "emulate_loop eng st (s # rest) = emulate_loop eng (emulate_step eng st s) rest"

definition emulate ::
  "('m, 'p, 'd) ebisu \<Rightarrow> int \<Rightarrow> (int \<times> bool list) list \<Rightarrow> 'm EbisuCard option" where
  "emulate eng cid rlog =
     (case emulate_loop eng (defaultModel eng (10 * 60), None) rlog of
        (current, None) \<Rightarrow> None
      | (current, Some last_rev) \<Rightarrow>
          Some \<lparr>card_id = cid, review_log = rlog, model = current, last_review = last_rev\<rparr>)"

text \<open>
  \<^verbatim>\<open>int(x)\<close> on a float truncates towards zero.
\<close>

definition int_py :: "real \<Rightarrow> int" where
  "int_py x = (if 0 \<le> x then \<lfloor>x\<rfloor> else \<lceil>x\<rceil>)"

text \<open>
  \<^verbatim>\<open>recall_at(self, tnow=None)\<close>. The clock is an argument: \<open>clock\<close> is the value of
  \<^verbatim>\<open>datetime.datetime.utcnow().timestamp()\<close> when the method runs. The method returns
  its value together with the object it was called on, as the call leaves it.
\<close>

definition recall_at ::
  "('m, 'p, 'd) ebisu \<Rightarrow> real \<Rightarrow> 'm EbisuCard \<Rightarrow> real option \<Rightarrow> 'p \<times> 'm EbisuCard" where
  "recall_at eng clock self tnow =
     (let tnow' = (case tnow of None \<Rightarrow> real_of_int (int_py clock) | Some t \<Rightarrow> t)
      in (predictRecall eng (model self) tnow' True, self))"

text \<open>\<^verbatim>\<open>recall_when(self, percentile=0.50)\<close>.\<close>

definition recall_when ::
  "('m, 'p, 'd) ebisu \<Rightarrow> 'm EbisuCard \<Rightarrow> real option \<Rightarrow> 'd \<times> 'm EbisuCard" where
  "recall_when eng self percentile =
     (let percentile' = (case percentile of None \<Rightarrow> 50 / 100 | Some p \<Rightarrow> p)
      in (modelToPercentileDecay eng (model self) percentile', self))"

subsection \<open>\<^verbatim>\<open>fuzzy_delta\<close>\<close>

datatype py_error = ZeroDivisionError | UnboundLocalError

text \<open>\<^verbatim>\<open>"%d" % n\<close>: the decimal digits, with a minus sign for a negative number.\<close>

fun digits_of :: "nat \<Rightarrow> string" where
  "digits_of n =
     (if n < 10 then [''0123456789'' ! n]
      else digits_of (n div 10) @ [''0123456789'' ! (n mod 10)])"

definition format_d :: "int \<Rightarrow> string" where
  "format_d i = (if i < 0 then ''-'' @ digits_of (nat (- i)) else digits_of (nat i))"

definition units :: "(string \<times> int) list" where
  "units =
     [(''year'', 60 * 60 * 24 * 365),
      (''month'', 60 * 60 * 24 * 30),
      (''week'', 60 * 60 * 24 * 7),
      (''day'', 60 * 60 * 24),
      (''hour'', 60 * 60),
      (''minute'', 60),
      (''second'', 1)]"

text \<open>
  The \<^verbatim>\<open>for\<close> loop: \<open>None\<close> when it ends without reaching \<^verbatim>\<open>break\<close>, which
  leaves \<^verbatim>\<open>fuzzy\<close> unbound.
\<close>

fun fuzzy_loop :: "int \<Rightarrow> (string \<times> int) list \<Rightarrow> string option" where
  "fuzzy_loop dt [] = None"
| "fuzzy_loop dt ((name, interval) # rest) =
     (if \<bar>dt\<bar> < 2 * interval \<and> interval \<noteq> 1 then fuzzy_loop dt rest
      else
        (let periods = \<bar>dt\<bar> div interval
         in Some (''about '' @ format_d periods @ '' '' @ name @ (if periods > 1 then ''s'' else ''''))))"

definition fuzzy_delta :: "int \<Rightarrow> bool \<Rightarrow> py_error + string" where
  "fuzzy_delta dt raw =
     (if dt = 0 then Inr ''now''
      else
        (case fuzzy_loop dt units of
           None \<Rightarrow> Inl UnboundLocalError
         | Some fuzzy \<Rightarrow>
             (if \<not> raw then
                (if dt > 0 then Inr (''in '' @ fuzzy)
                 else if dt < 0 then Inr (fuzzy @ '' ago'')
                 else Inr fuzzy)
              else Inr fuzzy)))"

subsection \<open>\<^verbatim>\<open>main\<close>\<close>

text \<open>
  The loop over the card ids, on the pair of the counters \<^verbatim>\<open>total_cards\<close> and
  \<^verbatim>\<open>total_reviews\<close>. What the loop prints (the line of a card under
  \<^verbatim>\<open>--verbose\<close>, a dot every 100 cards otherwise) does not touch the counters and is
  left out.
\<close>

fun main_loop ::
  "('m, 'p, 'd) ebisu \<Rightarrow> anki_db \<Rightarrow> int \<times> int \<Rightarrow> int list \<Rightarrow> int \<times> int" where
  "main_loop eng db (total_cards, total_reviews) [] = (total_cards, total_reviews)"
| "main_loop eng db (total_cards, total_reviews) (cid # rest) =
     (let rlog = get_review_log db cid
      in (case emulate eng cid rlog of
            None \<Rightarrow> main_loop eng db (total_cards, total_reviews) rest
          | Some crd \<Rightarrow>
              main_loop eng db (total_cards + 1, total_reviews + (len_py rlog - 1)) rest))"

text \<open>
  The summary line \<^verbatim>\<open>"Imported %d cards with %d reviews (~%.1f/card)."\<close>: its three
  arguments. The last is \<^verbatim>\<open>total_reviews / total_cards\<close>, which raises
  \<^verbatim>\<open>ZeroDivisionError\<close> when \<^verbatim>\<open>total_cards\<close> is 0.
\<close>

definition main :: "('m, 'p, 'd) ebisu \<Rightarrow> anki_db \<Rightarrow> py_error + (int \<times> int \<times> real)" where
  "main eng db =
     (case main_loop eng db (0, 0) (get_all_card_ids db) of
        (total_cards, total_reviews) \<Rightarrow>
          (if total_cards = 0 then Inl ZeroDivisionError
           else Inr (total_cards, total_reviews,
                     real_of_int total_reviews / real_of_int total_cards)))"

subsection \<open>Two instances of the library, for observing the calls\<close>

text \<open>
  The recording library: its model is the list of the \<^verbatim>\<open>updateRecall\<close> calls made so
  far, each as \<open>(successes, ntotal, tnow)\<close>. Running \<^const>\<open>emulate_loop\<close> with it gives
  the calls the loop makes, in order.
\<close>

definition recording :: "((int \<times> int \<times> int) list, unit, unit) ebisu" where
  "recording =
     \<lparr>defaultModel = (\<lambda>t. []),
      updateRecall = (\<lambda>m successes ntotal tnow. m @ [(successes, ntotal, tnow)]),
      predictRecall = (\<lambda>m tnow exact. ()),
      modelToPercentileDecay = (\<lambda>m percentile. ())\<rparr>"

definition update_calls :: "(int \<times> bool list) list \<Rightarrow> (int \<times> int \<times> int) list" where
  "update_calls rlog = fst (emulate_loop recording (defaultModel recording (10 * 60), None) rlog)"

text \<open>
  Making the recorded calls on a library \<open>eng\<close>, one after the other, from a model \<open>m\<close>.
\<close>

definition replay :: "('m, 'p, 'd) ebisu \<Rightarrow> 'm \<Rightarrow> (int \<times> int \<times> int) list \<Rightarrow> 'm" where
  "replay eng m calls =
     foldl (\<lambda>m (successes, ntotal, tnow). updateRecall eng m successes ntotal tnow) m calls"

text \<open>
  The echoing library: a query returns the arguments it was called with.
\<close>

definition echoing :: "(unit, real \<times> bool, real) ebisu" where
  "echoing =
     \<lparr>defaultModel = (\<lambda>t. ()),
      updateRecall = (\<lambda>m successes ntotal tnow. m),
      predictRecall = (\<lambda>m tnow exact. (tnow, exact)),
      modelToPercentileDecay = (\<lambda>m percentile. percentile)\<rparr>"

subsection \<open>What the aggregation computes, stated on the rows\<close>

text \<open>
  The normalised timestamp of a row \<open>(id, ease)\<close>, and the outcomes of the rows with
  normalised timestamp \<open>t\<close>, in the order of the rows.
\<close>

definition norm_ts :: "int \<times> int \<Rightarrow> int" where
  "norm_ts row = fst row div 1000"

definition trials_at :: "int \<Rightarrow> (int \<times> int) list \<Rightarrow> bool list" where
  "trials_at t rows = map (\<lambda>row. snd row \<noteq> 1) (filter (\<lambda>row. norm_ts row = t) rows)"

text \<open>
  The cards for which \<^verbatim>\<open>emulate\<close> returns a card, in the order \<^verbatim>\<open>main\<close> visits them.
\<close>

definition emulated_cards :: "('m, 'p, 'd) ebisu \<Rightarrow> anki_db \<Rightarrow> int list" where
  "emulated_cards eng db =
     filter (\<lambda>c. emulate eng c (get_review_log db c) \<noteq> None) (get_all_card_ids db)"

text \<open>
  The text \<^verbatim>\<open>fuzzy_delta\<close> builds for \<open>dt\<close> with the unit \<open>name\<close> of length \<open>interval\<close>.
\<close>

definition phrase :: "int \<Rightarrow> string \<Rightarrow> int \<Rightarrow> string" where
  "phrase dt name interval =
     ''about '' @ format_d (\<bar>dt\<bar> div interval) @ '' '' @ name
       @ (if \<bar>dt\<bar> div interval > 1 then ''s'' else '''')"

section \<open>The emulator\<close>

lemma any_py_iff: "any_py bs \<longleftrightarrow> True \<in> set bs"
  by (induction bs) auto

lemma emulate_loop_no_pass:
  "\<forall>s\<in>set rlog. \<not> any_py (snd s) \<Longrightarrow> emulate_loop eng (current, None) rlog = (current, None)"
  by (induction rlog) auto

lemma emulate_loop_tracking:
  "snd (emulate_loop eng (current, Some t) rlog) = Some (last (t # map fst rlog))"
  by (induction rlog arbitrary: current t) (auto simp: Let_def)

lemma emulate_loop_anchor:
  "\<exists>s\<in>set rlog. any_py (snd s) \<Longrightarrow>
     snd (emulate_loop eng (current, None) rlog) = Some (fst (last rlog))"
proof (induction rlog)
  case Nil
  then show ?case by simp
next
  case (Cons s rest)
  obtain t trials where s: "s = (t, trials)" by (cases s)
  show ?case
  proof (cases "any_py trials")
    case True
    then show ?thesis using s emulate_loop_tracking [of eng current t rest]
      by (simp add: last_map)
  next
    case False
    with Cons.prems s have ex: "\<exists>s\<in>set rest. any_py (snd s)" by auto
    then have "rest \<noteq> []" by auto
    with Cons.IH [OF ex] False s show ?thesis by simp
  qed
qed

lemma sum_py_bounds: "0 \<le> sum_py bs \<and> sum_py bs \<le> len_py bs"
  by (induction bs) (auto simp: len_py_def)

lemma len_py_pos: "bs \<noteq> [] \<Longrightarrow> 1 \<le> len_py bs"
  by (cases bs) (auto simp: len_py_def)

lemma recorded_prefix:
  "fst (emulate_loop recording (pre @ m, lr) rlog) = pre @ fst (emulate_loop recording (m, lr) rlog)"
proof (induction rlog arbitrary: m lr)
  case Nil
  show ?case by simp
next
  case (Cons s rest)
  obtain t trials where s: "s = (t, trials)" by (cases s)
  show ?case
  proof (cases lr)
    case None
    then show ?thesis using s Cons.IH by simp
  next
    case (Some a)
    then show ?thesis 
      using s Cons.IH [of "m @ [(sum_py trials, len_py trials, t - a)]" "Some t"]
      by (simp add: recording_def)
  qed
qed

lemma emulate_loop_replay:
  "emulate_loop eng (m, lr) rlog =
     (replay eng m (fst (emulate_loop recording ([], lr) rlog)),
      snd (emulate_loop recording ([], lr) rlog))"
proof (induction rlog arbitrary: m lr)
  case Nil
  show ?case by (simp add: replay_def)
next
  case (Cons s rest)
  obtain t trials where s: "s = (t, trials)" by (cases s)
  show ?case
  proof (cases lr)
    case None
    then show ?thesis using s Cons.IH by simp
  next
    case (Some a)
    have "fst (emulate_loop recording ([(sum_py trials, len_py trials, t - a)], Some t) rest)
        = [(sum_py trials, len_py trials, t - a)] @ fst (emulate_loop recording ([], Some t) rest)"
      using recorded_prefix [of "[(sum_py trials, len_py trials, t - a)]" "[]" "Some t" rest] by simp
    moreover have "snd (emulate_loop recording ([(sum_py trials, len_py trials, t - a)], Some t) rest) = snd (emulate_loop recording ([], Some t) rest)"
      by (simp add: emulate_loop_tracking)
    ultimately show ?thesis using Some s Cons.IH [of "updateRecall eng m (sum_py trials) (len_py trials) (t - a)" "Some t"]
      by (simp add: recording_def replay_def)
  qed
qed

lemma calls_tracking:
  "sorted_wrt (<) (t # map fst rlog) \<Longrightarrow> \<forall>s\<in>set rlog. snd s \<noteq> [] \<Longrightarrow>
   \<forall>c\<in>set m. P c \<Longrightarrow>
   (\<And>successes ntotal tnow. 0 < tnow \<Longrightarrow> 1 \<le> ntotal \<Longrightarrow> 0 \<le> successes \<Longrightarrow> successes \<le> ntotal \<Longrightarrow> P (successes, ntotal, tnow)) \<Longrightarrow>
   \<forall>c\<in>set (fst (emulate_loop recording (m, Some t) rlog)). P c"
proof (induction rlog arbitrary: m t)
  case Nil
  then show ?case by simp
next
  case (Cons s rest)
  obtain u trials where s: "s = (u, trials)" by (cases s)
  have lt: "t < u" and srt: "sorted_wrt (<) (u # map fst rest)" and ne: "trials \<noteq> []"
    and rest: "\<forall>s\<in>set rest. snd s \<noteq> []"
    using Cons.prems(1,2) s by auto
  have new: "P (sum_py trials, len_py trials, u - t)"
    using Cons.prems(4) lt ne sum_py_bounds [of trials] len_py_pos [of trials] by simp
  have "\<forall>c\<in>set (m @ [(sum_py trials, len_py trials, u - t)]). P c"
    using Cons.prems(3) new by auto
  from Cons.IH [OF srt rest this Cons.prems(4)]
  show ?case using s by (simp add: recording_def)
qed

lemma calls_awaiting:
  "sorted_wrt (<) (map fst rlog) \<Longrightarrow> \<forall>s\<in>set rlog. snd s \<noteq> [] \<Longrightarrow>
   (\<And>successes ntotal tnow. 0 < tnow \<Longrightarrow> 1 \<le> ntotal \<Longrightarrow> 0 \<le> successes \<Longrightarrow> successes \<le> ntotal \<Longrightarrow> P (successes, ntotal, tnow)) \<Longrightarrow>
   \<forall>c\<in>set (fst (emulate_loop recording ([], None) rlog)). P c"
proof (induction rlog)
  case Nil
  then show ?case by simp
next
  case (Cons s rest)
  obtain u trials where s: "s = (u, trials)" by (cases s)
  have srt: "sorted_wrt (<) (map fst rest)" and srt': "sorted_wrt (<) (u # map fst rest)"
    and rest: "\<forall>s\<in>set rest. snd s \<noteq> []"
    using Cons.prems(1,2) s by auto
  show ?case
  proof (cases "any_py trials")
    case True
    have "\<forall>c\<in>set ([] :: (int \<times> int \<times> int) list). P c" by simp
    from calls_tracking [OF srt' rest this Cons.prems(3)] True s show ?thesis by simp
  next
    case False
    with Cons.IH [OF srt rest Cons.prems(3)] s show ?thesis by simp
  qed
qed

lemma update_calls_no_pass:
  "\<forall>s\<in>set rlog. \<not> any_py (snd s) \<Longrightarrow> update_calls rlog = []"
  by (simp add: update_calls_def emulate_loop_no_pass recording_def)

lemma sorted_le_last: "sorted xs \<Longrightarrow> x \<in> set xs \<Longrightarrow> x \<le> last xs"
  by (induction xs) (auto)

lemma sorted_last_Max: "sorted xs \<Longrightarrow> xs \<noteq> [] \<Longrightarrow> last xs = Max (set xs)"
  by (rule Max_eqI [symmetric]) (auto simp: sorted_le_last)

lemma emulate_Some:
  assumes "\<exists>s\<in>set rlog. any_py (snd s)"
  shows "emulate eng cid rlog =
           Some \<lparr>card_id = cid, review_log = rlog,
                 model = replay eng (defaultModel eng 600) (update_calls rlog),
                 last_review = fst (last rlog)\<rparr>"
proof -
  have "snd (emulate_loop recording ([], None) rlog) = Some (fst (last rlog))"
    using assms by (rule emulate_loop_anchor)
  moreover have "defaultModel recording (10 * 60) = []"
    by (simp add: recording_def)
  ultimately show ?thesis
    by (simp add: emulate_def update_calls_def emulate_loop_replay [of eng _ None rlog])
qed

lemma emulate_None:
  "\<forall>s\<in>set rlog. \<not> any_py (snd s) \<Longrightarrow> emulate eng cid rlog = None"
  by (simp add: emulate_def emulate_loop_no_pass)

text \<open>
  Claim C1. When some session of the list has a passing trial, \<^const>\<open>emulate\<close> returns a
  card whose \<^const>\<open>last_review\<close> is the time of the last session of the list, which is
  the largest time when the list is sorted by time. Its model is the prior
  \<^verbatim>\<open>defaultModel(600)\<close> with the recorded calls of \<^verbatim>\<open>updateRecall\<close> made on it; for a
  list of one session no call is made and the model is the prior itself.
\<close>

theorem emulate_last_review_is_last_session:
  assumes "\<exists>s\<in>set rlog. any_py (snd s)"
  shows "\<exists>c. emulate eng cid rlog = Some c
           \<and> last_review c = fst (last rlog)
           \<and> (sorted (map fst rlog) \<longrightarrow> last_review c = Max (fst ` set rlog))
           \<and> model c = replay eng (defaultModel eng 600) (update_calls rlog)
           \<and> (length rlog = 1 \<longrightarrow> update_calls rlog = [] \<and> model c = defaultModel eng 600)"
proof -
  from assms have ne: "rlog \<noteq> []" by auto
  have mx: "sorted (map fst rlog) \<Longrightarrow> fst (last rlog) = Max (fst ` set rlog)"
    using sorted_last_Max [of "map fst rlog"] ne by (simp add: last_map)
  have one: "update_calls rlog = []" if "length rlog = 1"
  proof -
    from that obtain s where "rlog = [s]" by (cases rlog) auto
    then show ?thesis by (cases s) (simp add: update_calls_def recording_def)
  qed
  show ?thesis
    using emulate_Some [OF assms, of eng cid] mx one by (simp add: replay_def)
qed

theorem emulate_last_review_is_last_session_witness:
  "(\<exists>s\<in>set [(10 :: int, [False]), (20, [True, False]), (30, [False])]. any_py (snd s))
   \<and> (\<exists>c. emulate recording 7 [(10, [False]), (20, [True, False]), (30, [False])] = Some c
          \<and> last_review c = 30 \<and> last_review c = Max {10, 20, 30})
   \<and> (\<exists>s\<in>set [(20 :: int, [True, False])]. any_py (snd s))
   \<and> length [(20 :: int, [True, False])] = 1
   \<and> (\<exists>c. emulate recording 7 [(20, [True, False])] = Some c
          \<and> last_review c = 20 \<and> model c = defaultModel recording 600)"
proof -
  have h3: "\<exists>s\<in>set [(10 :: int, [False]), (20, [True, False]), (30, [False])]. any_py (snd s)"
    by simp
  have h1: "\<exists>s\<in>set [(20 :: int, [True, False])]. any_py (snd s)"
    by simp
  from emulate_last_review_is_last_session [OF h3, of recording 7]
  have r3: "\<exists>c. emulate recording 7 [(10, [False]), (20, [True, False]), (30, [False])] = Some c
          \<and> last_review c = 30 \<and> last_review c = Max {10, 20, 30}"
    by auto
  from emulate_last_review_is_last_session [OF h1, of recording 7]
  have r1: "\<exists>c. emulate recording 7 [(20, [True, False])] = Some c
          \<and> last_review c = 20 \<and> model c = defaultModel recording 600"
    by auto
  from h3 h1 r3 r1 show ?thesis by simp
qed

text \<open>
  Claim C2. \<^const>\<open>emulate\<close> returns \<open>None\<close> exactly when no session of the list has a
  passing trial, the empty list included; a card is \<open>Some c\<close>, which is never \<open>None\<close>.
  In that case the loop makes no call of \<^verbatim>\<open>updateRecall\<close> at all, so the return is an
  ordinary one whatever the library does.
\<close>

theorem emulate_no_pass_no_result:
  "(emulate eng cid rlog = None \<longleftrightarrow> (\<forall>s\<in>set rlog. \<not> any_py (snd s)))
   \<and> emulate eng cid [] = None
   \<and> ((\<forall>s\<in>set rlog. \<not> any_py (snd s)) \<longrightarrow> update_calls rlog = [])"
proof -
  have some: "emulate eng cid rlog \<noteq> None" if "\<not> (\<forall>s\<in>set rlog. \<not> any_py (snd s))"
  proof -
    from that have "\<exists>s\<in>set rlog. any_py (snd s)" by blast
    from emulate_Some [OF this, of eng cid] show ?thesis by simp
  qed
  have none: "emulate eng cid rlog = None" if "\<forall>s\<in>set rlog. \<not> any_py (snd s)"
    using that by (rule emulate_None)
  have empty: "emulate eng cid [] = None"
    by (simp add: emulate_def)
  have calls: "update_calls rlog = []" if "\<forall>s\<in>set rlog. \<not> any_py (snd s)"
    using that by (rule update_calls_no_pass)
  from some none empty calls show ?thesis by blast
qed

theorem emulate_no_pass_no_result_witness:
  "list_all (\<lambda>s. \<not> any_py (snd s)) [(10 :: int, [False]), (20, [False, False]), (30, [])]
   \<and> emulate recording 7 [(10, [False]), (20, [False, False]), (30, [])] = None
   \<and> update_calls [(10, [False]), (20, [False, False]), (30, [])] = []
   \<and> emulate recording 7 [(10, [False]), (20, [True, False])] \<noteq> None"
proof -
  have h: "\<forall>s\<in>set [(10 :: int, [False]), (20, [False, False]), (30, [])]. \<not> any_py (snd s)"
    by simp
  have h': "\<not> (\<forall>s\<in>set [(10 :: int, [False]), (20, [True, False])]. \<not> any_py (snd s))"
    by simp
  from h emulate_no_pass_no_result [of recording 7 "[(10, [False]), (20, [False, False]), (30, [])]"]
  have "emulate recording 7 [(10, [False]), (20, [False, False]), (30, [])] = None
      \<and> update_calls [(10, [False]), (20, [False, False]), (30, [])] = []"
    by blast
  moreover from h' emulate_no_pass_no_result [of recording 7 "[(10, [False]), (20, [True, False])]"]
  have "emulate recording 7 [(10, [False]), (20, [True, False])] \<noteq> None"
    by blast
  ultimately show ?thesis by simp
qed

text \<open>
  Claim C3. For a list sorted strictly ascending by time whose sessions all have a
  trial, every call of \<^verbatim>\<open>updateRecall\<close> the loop makes has \<open>0 < tnow\<close>,
  \<open>1 \<le> total\<close> and \<open>0 \<le> successes \<le> total\<close>; and after any prefix of the list
  without a passing trial (no anchor yet) no call has been made.
\<close>

theorem update_calls_meet_precondition:
  assumes "sorted_wrt (<) (map fst rlog)" and "\<forall>s\<in>set rlog. snd s \<noteq> []"
  shows "(\<forall>(successes, ntotal, tnow)\<in>set (update_calls rlog).
            0 < tnow \<and> 1 \<le> ntotal \<and> 0 \<le> successes \<and> successes \<le> ntotal)
       \<and> (\<forall>k. (\<forall>s\<in>set (take k rlog). \<not> any_py (snd s)) \<longrightarrow> update_calls (take k rlog) = [])"
proof -
  have prior: "defaultModel recording (10 * 60) = []"
    by (simp add: recording_def)
  have "\<forall>c\<in>set (fst (emulate_loop recording ([], None) rlog)).
          (case c of (successes, ntotal, tnow) \<Rightarrow>
             0 < tnow \<and> 1 \<le> ntotal \<and> 0 \<le> successes \<and> successes \<le> ntotal)"
    by (rule calls_awaiting [OF assms]) simp
  then have calls: "\<forall>(successes, ntotal, tnow)\<in>set (update_calls rlog).
            0 < tnow \<and> 1 \<le> ntotal \<and> 0 \<le> successes \<and> successes \<le> ntotal"
    unfolding update_calls_def prior .
  have "\<forall>k. (\<forall>s\<in>set (take k rlog). \<not> any_py (snd s)) \<longrightarrow> update_calls (take k rlog) = []"
    using update_calls_no_pass by blast
  with calls show ?thesis by blast
qed

theorem update_calls_meet_precondition_witness:
  "sorted_wrt (<) (map fst [(10 :: int, [False]), (20, [True, False]), (30, [False]), (45, [True, True])])
   \<and> list_all (\<lambda>s. snd s \<noteq> []) [(10 :: int, [False]), (20, [True, False]), (30, [False]), (45, [True, True])]
   \<and> update_calls [(10, [False]), (20, [True, False]), (30, [False]), (45, [True, True])]
       = [(0, 1, 10), (2, 2, 15)]
   \<and> list_all (\<lambda>(successes, ntotal, tnow). 0 < tnow \<and> 1 \<le> ntotal \<and> 0 \<le> successes \<and> successes \<le> ntotal)
       (update_calls [(10, [False]), (20, [True, False]), (30, [False]), (45, [True, True])])
   \<and> update_calls (take 1 [(10, [False]), (20, [True, False]), (30, [False]), (45, [True, True])]) = []"
proof -
  have h1: "sorted_wrt (<) (map fst [(10 :: int, [False]), (20, [True, False]), (30, [False]), (45, [True, True])])"
    by simp
  have h2: "\<forall>s\<in>set [(10 :: int, [False]), (20, [True, False]), (30, [False]), (45, [True, True])]. snd s \<noteq> []"
    by simp
  have ev: "update_calls [(10, [False]), (20, [True, False]), (30, [False]), (45, [True, True])]
       = [(0, 1, 10), (2, 2, 15)]"
    by (simp add: update_calls_def recording_def len_py_def)
  have pre: "\<forall>s\<in>set (take 1 [(10 :: int, [False]), (20, [True, False]), (30, [False]), (45, [True, True])]). \<not> any_py (snd s)"
    by simp
  from update_calls_meet_precondition [OF h1 h2] pre
  have "(\<forall>(successes, ntotal, tnow)\<in>set (update_calls [(10, [False]), (20, [True, False]), (30, [False]), (45, [True, True])]).
            0 < tnow \<and> 1 \<le> ntotal \<and> 0 \<le> successes \<and> successes \<le> ntotal)
     \<and> update_calls (take 1 [(10, [False]), (20, [True, False]), (30, [False]), (45, [True, True])]) = []"
    by blast
  with h1 h2 ev show ?thesis by (simp add: list_all_iff)
qed

section \<open>The aggregation of the review log\<close>

lemma map_of_append_review:
  "map_of (append_review k v d) =
     (map_of d)(k \<mapsto> (case map_of d k of None \<Rightarrow> [v] | Some vs \<Rightarrow> vs @ [v]))"
  by (induction d) (auto simp: fun_eq_iff)

lemma keys_append_review:
  "fst ` set (append_review k v d) = insert k (fst ` set d)"
  by (induction d) (auto simp: rev_image_eqI split: if_splits)

lemma distinct_append_review:
  "distinct (map fst d) \<Longrightarrow> distinct (map fst (append_review k v d))"
proof (induction d)
  case Nil
  show ?case by simp
next
  case (Cons e d)
  obtain k' vs where e: "e = (k', vs)" by (cases e)
  have "k' \<notin> fst ` set (append_review k v d)" if "k \<noteq> k'"
    using that Cons.prems e by (simp add: keys_append_review)
  with Cons e show ?case by auto
qed

lemma distinct_group_reviews:
  "distinct (map fst d) \<Longrightarrow> distinct (map fst (group_reviews d rows))"
  by (induction d rows rule: group_reviews.induct) (simp_all add: distinct_append_review)

lemma keys_group_reviews:
  "fst ` set (group_reviews d rows) = fst ` set d \<union> norm_ts ` set rows"
  by (induction d rows rule: group_reviews.induct) (auto simp: keys_append_review norm_ts_def)

lemma trials_at_Nil: "trials_at t [] = []"
  by (simp add: trials_at_def)

lemma trials_at_Cons:
  "trials_at t ((timestamp, button) # rows) =
     (if timestamp div 1000 = t then (button \<noteq> 1) # trials_at t rows else trials_at t rows)"
  by (simp add: trials_at_def norm_ts_def)

lemma trials_at_absent: "t \<notin> norm_ts ` set rows \<Longrightarrow> trials_at t rows = []"
  by (auto simp: trials_at_def filter_empty_conv)

lemma map_of_group_reviews:
  "map_of (group_reviews d rows) t =
     (if t \<in> norm_ts ` set rows
      then Some ((case map_of d t of None \<Rightarrow> [] | Some vs \<Rightarrow> vs) @ trials_at t rows)
      else map_of d t)"
proof (induction d rows rule: group_reviews.induct)
  case (1 reviews)
  show ?case by simp
next
  case (2 reviews timestamp button rows)
  have step: "map_of (group_reviews reviews ((timestamp, button) # rows)) t =
        map_of (group_reviews (append_review (timestamp div 1000) (button \<noteq> 1) reviews) rows) t"
    by simp
  have nt: "norm_ts (timestamp, button) = timestamp div 1000"
    by (simp add: norm_ts_def)
  show ?case
  proof (cases "t \<in> norm_ts ` set rows")
    case True
    then show ?thesis
      unfolding step 2 [OF refl refl]
      by (simp add: map_of_append_review trials_at_Cons nt split: option.splits)
  next
    case False
    then have "trials_at t rows = []" by (rule trials_at_absent)
    with False show ?thesis
      unfolding step 2 [OF refl refl]
      by (auto simp: map_of_append_review trials_at_Cons nt split: option.splits)
  qed
qed

lemma group_reviews_mem:
  "(t, trials) \<in> set (group_reviews [] rows) \<longleftrightarrow> t \<in> norm_ts ` set rows \<and> trials = trials_at t rows"
proof -
  have "distinct (map fst (group_reviews [] rows))"
    by (simp add: distinct_group_reviews)
  then have "(t, trials) \<in> set (group_reviews [] rows) \<longleftrightarrow> map_of (group_reviews [] rows) t = Some trials"
    by simp
  then show ?thesis by (auto simp: map_of_group_reviews)
qed

lemma review_sessions_mem:
  "(t, trials) \<in> set (review_sessions rows) \<longleftrightarrow> t \<in> norm_ts ` set rows \<and> trials = trials_at t rows"
  by (simp add: review_sessions_def group_reviews_mem)

lemma review_sessions_keys:
  "map fst (review_sessions rows) = sorted_list_of_set (norm_ts ` set rows)"
proof -
  let ?r = "review_sessions rows"
  have d: "distinct (map fst ?r)"
    using distinct_group_reviews [of "[]" rows] by (simp add: review_sessions_def distinct_map)
  have "sorted ?r" by (simp add: review_sessions_def)
  then have "sorted_wrt (\<lambda>a b. fst a \<le> fst b) ?r"
    by (rule sorted_wrt_mono_rel [rotated]) (auto simp: less_eq_prod_def)
  then have s: "sorted (map fst ?r)" by (simp add: sorted_wrt_map)
  have "set (map fst ?r) = norm_ts ` set rows"
    by (simp add: review_sessions_def keys_group_reviews)
  with d s show ?thesis
    by (metis sorted_list_of_set.idem_if_sorted_distinct)
qed

lemma map_fst_rebuild:
  "\<forall>s\<in>set xs. snd s = f (fst s) \<Longrightarrow> xs = map (\<lambda>t. (t, f t)) (map fst xs)"
  by (induction xs) auto

lemma review_sessions_spec:
  "review_sessions rows = map (\<lambda>t. (t, trials_at t rows)) (sorted_list_of_set (norm_ts ` set rows))"
proof -
  have "\<forall>s\<in>set (review_sessions rows). snd s = trials_at (fst s) rows"
    using review_sessions_mem by auto
  then have "review_sessions rows = map (\<lambda>t. (t, trials_at t rows)) (map fst (review_sessions rows))"
    by (rule map_fst_rebuild)
  then show ?thesis by (simp only: review_sessions_keys)
qed

lemma len_trials_at:
  "len_py (trials_at t rows) = int (length (filter (\<lambda>row. norm_ts row = t) rows))"
  by (simp add: len_py_def trials_at_def)

lemma sum_py_count: "sum_py bs = int (length (filter (\<lambda>b. b) bs))"
  by (induction bs) auto

lemma sum_trials_at:
  "sum_py (trials_at t rows) = int (length (filter (\<lambda>row. norm_ts row = t \<and> snd row \<noteq> 1) rows))"
proof -
  have "filter (\<lambda>b. b) (map (\<lambda>row. snd row \<noteq> 1) xs) = map (\<lambda>row. snd row \<noteq> 1) (filter (\<lambda>row. snd row \<noteq> 1) xs)" for xs :: "(int \<times> int) list"
    by (induction xs) auto
  then show ?thesis
    by (simp add: sum_py_count trials_at_def conj_commute)
qed

text \<open>
  Claim C4, amended. The sessions are exactly one per normalised timestamp
  (\<^verbatim>\<open>id // 1000\<close>) of the rows, in ascending order, each holding the outcomes of all
  the rows with that normalised timestamp; its \<^verbatim>\<open>len\<close> is the number of those rows and
  its \<^verbatim>\<open>sum\<close> the number of those with a button other than 1. Three rows with the
  millisecond timestamps 100000, 100250 and 100999 and the outcomes pass, fail, pass give
  the one session at time 100 with 3 trials, 2 of them passes.
\<close>

theorem review_sessions_merge_by_second:
  "review_sessions rows
     = map (\<lambda>t. (t, trials_at t rows)) (sorted_list_of_set (norm_ts ` set rows))
   \<and> len_py (trials_at t rows) = int (length (filter (\<lambda>row. norm_ts row = t) rows))
   \<and> sum_py (trials_at t rows)
       = int (length (filter (\<lambda>row. norm_ts row = t \<and> snd row \<noteq> 1) rows))
   \<and> review_sessions [(100000, 3), (100250, 1), (100999, 3)] = [(100, [True, False, True])]
   \<and> len_py [True, False, True] = 3
   \<and> sum_py [True, False, True] = 2"
proof -
  have ex: "review_sessions [(100000, 3), (100250, 1), (100999, 3)] = [(100, [True, False, True])]"
    by (simp add: review_sessions_def)
  have cnt: "len_py [True, False, True] = 3 \<and> sum_py [True, False, True] = 2"
    by (simp add: len_py_def)
  from review_sessions_spec [of rows] len_trials_at [of t rows] sum_trials_at [of t rows] ex cnt
  show ?thesis by blast
qed

text \<open>
  Claim C4 as stated fails: rows with the raw timestamp 100 are normalised as well, and
  their session is at time 0, not 100.
\<close>

theorem review_sessions_raw_100_counterexample:
  "review_sessions [(100, 3), (100, 1), (100, 3)] = [(0, [True, False, True])]
   \<and> map fst (review_sessions [(100, 3), (100, 1), (100, 3)]) \<noteq> [100]"
  by (simp add: review_sessions_def)

text \<open>
  Claim C5. The session times are the normalised timestamps of the rows, each once, in
  strictly ascending order; the timestamp 1600000000000 is normalised to 1600000000.
\<close>

theorem review_sessions_strictly_sorted:
  "map fst (review_sessions rows) = sorted_list_of_set (norm_ts ` set rows)
   \<and> sorted_wrt (<) (map fst (review_sessions rows))
   \<and> distinct (map fst (review_sessions rows))
   \<and> set (map fst (review_sessions rows)) = norm_ts ` set rows
   \<and> sorted_wrt (<) (map fst (get_review_log conn cid))
   \<and> norm_ts (1600000000000, button) = 1600000000
   \<and> review_sessions [(1600000000000, 3)] = [(1600000000, [True])]"
proof -
  have k: "map fst (review_sessions rows) = sorted_list_of_set (norm_ts ` set rows)" for rows
    by (rule review_sessions_keys)
  have s: "sorted_wrt (<) (map fst (review_sessions rows))" for rows
    unfolding k by simp
  have d: "distinct (map fst (review_sessions rows))"
    unfolding k by simp
  have m: "set (map fst (review_sessions rows)) = norm_ts ` set rows"
    unfolding k by simp
  have g: "sorted_wrt (<) (map fst (get_review_log conn cid))"
    unfolding get_review_log_def by (rule s)
  have n: "norm_ts (1600000000000, button) = 1600000000"
    by (simp add: norm_ts_def)
  have e: "review_sessions [(1600000000000, 3)] = [(1600000000, [True])]"
    by (simp add: review_sessions_def)
  from k [of rows] s [of rows] d m g n e show ?thesis by blast
qed

section \<open>The queries\<close>

lemma recall_at_default:
  "fst (recall_at eng clock self None)
     = predictRecall eng (model self) (real_of_int (int_py clock)) True"
  by (simp add: recall_at_def)

text \<open>
  Claim C6. Without \<^verbatim>\<open>tnow\<close>, \<^verbatim>\<open>recall_at\<close> passes the clock's time itself, truncated
  to whole seconds, to \<^verbatim>\<open>predictRecall\<close> (with \<^verbatim>\<open>exact=True\<close>); \<^verbatim>\<open>last_review\<close> is
  not subtracted. For the card of the log \<^verbatim>\<open>[(1600000000, [True])]\<close> and the clock at
  1600000600 the library is asked for the recall after 1600000600 seconds, not after
  the 600 seconds since the last review.
\<close>

theorem recall_at_default_is_clock_time:
  "emulate echoing 7 [(1600000000, [True])]
     = Some \<lparr>card_id = 7, review_log = [(1600000000, [True])], model = (), last_review = 1600000000\<rparr>
   \<and> fst (recall_at echoing 1600000600
           \<lparr>card_id = 7, review_log = [(1600000000, [True])], model = (), last_review = 1600000000\<rparr> None)
       = (1600000600, True)
   \<and> fst (recall_at echoing 1600000600
           \<lparr>card_id = 7, review_log = [(1600000000, [True])], model = (), last_review = 1600000000\<rparr> None)
       \<noteq> (1600000600 - 1600000000, True)"
  by (simp add: emulate_def echoing_def recall_at_def int_py_def)

text \<open>
  Claim C9, amended. Neither query changes the card. \<^verbatim>\<open>recall_when\<close>, and
  \<^verbatim>\<open>recall_at\<close> with \<^verbatim>\<open>tnow\<close> given, return the same value when called again with the
  same arguments, whatever the clock shows; \<^verbatim>\<open>recall_at\<close> without \<^verbatim>\<open>tnow\<close> does so
  when the clock shows the same whole second at both calls.
\<close>

theorem recall_queries_idempotent:
  "snd (recall_at eng clock self tnow) = self
   \<and> snd (recall_when eng self percentile) = self
   \<and> recall_at eng clock2 (snd (recall_at eng clock1 self (Some t))) (Some t)
       = recall_at eng clock1 self (Some t)
   \<and> recall_when eng (snd (recall_when eng self percentile)) percentile
       = recall_when eng self percentile
   \<and> (int_py clock1 = int_py clock2 \<longrightarrow>
        recall_at eng clock2 (snd (recall_at eng clock1 self None)) None
          = recall_at eng clock1 self None)"
  by (simp add: recall_at_def recall_when_def)

theorem recall_queries_idempotent_witness:
  "int_py 1000.2 = int_py 1000.9
   \<and> recall_at echoing 1000.9
        (snd (recall_at echoing 1000.2
                \<lparr>card_id = 7, review_log = [(400, [True])], model = (), last_review = 400\<rparr> None))
        None
      = ((1000, True), \<lparr>card_id = 7, review_log = [(400, [True])], model = (), last_review = 400\<rparr>)"
proof -
  have h: "int_py 1000.2 = int_py 1000.9"
    by (simp add: int_py_def)
  have e: "recall_at echoing 1000.2
                \<lparr>card_id = 7, review_log = [(400, [True])], model = (), last_review = 400\<rparr> None
      = ((1000, True), \<lparr>card_id = 7, review_log = [(400, [True])], model = (), last_review = 400\<rparr>)"
    by (simp add: echoing_def recall_at_def int_py_def)
  from recall_queries_idempotent [where eng = echoing and ?clock1.0 = "1000.2" and ?clock2.0 = "1000.9"
        and self = "\<lparr>card_id = 7, review_log = [(400, [True])], model = (), last_review = 400\<rparr>"]
  have "recall_at echoing 1000.9
        (snd (recall_at echoing 1000.2
                \<lparr>card_id = 7, review_log = [(400, [True])], model = (), last_review = 400\<rparr> None))
        None
      = recall_at echoing 1000.2
                \<lparr>card_id = 7, review_log = [(400, [True])], model = (), last_review = 400\<rparr> None"
    using h by blast
  with h e show ?thesis by simp
qed

text \<open>
  Claim C9 as stated fails for \<^verbatim>\<open>recall_at\<close> without \<^verbatim>\<open>tnow\<close>: two calls on the same
  card, the clock at 1000 and then at 1001, return different values with a library whose
  prediction depends on the time.
\<close>

theorem recall_at_default_clock_counterexample:
  "fst (recall_at echoing 1001
          (snd (recall_at echoing 1000
                  \<lparr>card_id = 7, review_log = [(400, [True])], model = (), last_review = 400\<rparr> None))
          None)
   \<noteq> fst (recall_at echoing 1000
            \<lparr>card_id = 7, review_log = [(400, [True])], model = (), last_review = 400\<rparr> None)"
  by (simp add: echoing_def recall_at_def int_py_def)

section \<open>The formatter\<close>

lemma fuzzy_delta_returns: "\<exists>s. fuzzy_delta dt raw = Inr s"
  by (simp add: fuzzy_delta_def units_def Let_def)

lemma loop_year:
  "2 * 31536000 \<le> \<bar>dt\<bar> \<Longrightarrow> fuzzy_loop dt units = Some (phrase dt ''year'' 31536000)"
  by (simp add: units_def phrase_def)

lemma loop_month:
  "2 * 2592000 \<le> \<bar>dt\<bar> \<Longrightarrow> \<bar>dt\<bar> < 2 * 31536000 \<Longrightarrow>
     fuzzy_loop dt units = Some (phrase dt ''month'' 2592000)"
  by (simp add: units_def phrase_def)

lemma loop_week:
  "2 * 604800 \<le> \<bar>dt\<bar> \<Longrightarrow> \<bar>dt\<bar> < 2 * 2592000 \<Longrightarrow>
     fuzzy_loop dt units = Some (phrase dt ''week'' 604800)"
  by (simp add: units_def phrase_def)

lemma loop_day:
  "2 * 86400 \<le> \<bar>dt\<bar> \<Longrightarrow> \<bar>dt\<bar> < 2 * 604800 \<Longrightarrow>
     fuzzy_loop dt units = Some (phrase dt ''day'' 86400)"
  by (simp add: units_def phrase_def)

lemma loop_hour:
  "2 * 3600 \<le> \<bar>dt\<bar> \<Longrightarrow> \<bar>dt\<bar> < 2 * 86400 \<Longrightarrow>
     fuzzy_loop dt units = Some (phrase dt ''hour'' 3600)"
  by (simp add: units_def phrase_def)

lemma loop_minute:
  "2 * 60 \<le> \<bar>dt\<bar> \<Longrightarrow> \<bar>dt\<bar> < 2 * 3600 \<Longrightarrow>
     fuzzy_loop dt units = Some (phrase dt ''minute'' 60)"
  by (simp add: units_def phrase_def)

lemma loop_second:
  "\<bar>dt\<bar> < 2 * 60 \<Longrightarrow> fuzzy_loop dt units = Some (phrase dt ''second'' 1)"
  by (simp add: units_def phrase_def)

lemma fuzzy_loop_selects:
  assumes mem: "(name, interval) \<in> set units"
    and ok: "2 * interval \<le> \<bar>dt\<bar> \<or> interval = 1"
    and big: "\<forall>u\<in>set units. interval < snd u \<longrightarrow> \<bar>dt\<bar> < 2 * snd u"
  shows "fuzzy_loop dt units = Some (phrase dt name interval)"
proof -
  have bounds:
    "(interval < 31536000 \<longrightarrow> \<bar>dt\<bar> < 2 * 31536000)
     \<and> (interval < 2592000 \<longrightarrow> \<bar>dt\<bar> < 2 * 2592000)
     \<and> (interval < 604800 \<longrightarrow> \<bar>dt\<bar> < 2 * 604800)
     \<and> (interval < 86400 \<longrightarrow> \<bar>dt\<bar> < 2 * 86400)
     \<and> (interval < 3600 \<longrightarrow> \<bar>dt\<bar> < 2 * 3600)
     \<and> (interval < 60 \<longrightarrow> \<bar>dt\<bar> < 2 * 60)"
    using big by (simp add: units_def)
  have "name = ''year'' \<and> interval = 31536000
      \<or> name = ''month'' \<and> interval = 2592000
      \<or> name = ''week'' \<and> interval = 604800
      \<or> name = ''day'' \<and> interval = 86400
      \<or> name = ''hour'' \<and> interval = 3600
      \<or> name = ''minute'' \<and> interval = 60
      \<or> name = ''second'' \<and> interval = 1"
    using mem by (simp add: units_def)
  then show ?thesis
  proof (elim disjE conjE, goal_cases)
    case 1 with ok show ?case by (simp add: loop_year)
  next
    case 2 with ok bounds show ?case by (simp add: loop_month)
  next
    case 3 with ok bounds show ?case by (simp add: loop_week)
  next
    case 4 with ok bounds show ?case by (simp add: loop_day)
  next
    case 5 with ok bounds show ?case by (simp add: loop_hour)
  next
    case 6 with ok bounds show ?case by (simp add: loop_minute)
  next
    case 7 with bounds show ?case by (simp add: loop_second)
  qed
qed

lemma fuzzy_delta_frames:
  "fuzzy_loop dt units = Some s \<Longrightarrow> dt \<noteq> 0 \<Longrightarrow>
     fuzzy_delta dt True = Inr s
     \<and> fuzzy_delta dt False = Inr (if 0 < dt then ''in '' @ s else s @ '' ago'')"
  by (simp add: fuzzy_delta_def)

lemma unit_selected_exists:
  "\<exists>name interval. (name, interval) \<in> set units
      \<and> (2 * interval \<le> \<bar>dt\<bar> \<or> interval = 1)
      \<and> (\<forall>u\<in>set units. interval < snd u \<longrightarrow> \<bar>dt\<bar> < 2 * snd u)"
proof -
  consider "2 * 31536000 \<le> \<bar>dt\<bar>"
    | "2 * 2592000 \<le> \<bar>dt\<bar>" "\<bar>dt\<bar> < 2 * 31536000"
    | "2 * 604800 \<le> \<bar>dt\<bar>" "\<bar>dt\<bar> < 2 * 2592000"
    | "2 * 86400 \<le> \<bar>dt\<bar>" "\<bar>dt\<bar> < 2 * 604800"
    | "2 * 3600 \<le> \<bar>dt\<bar>" "\<bar>dt\<bar> < 2 * 86400"
    | "2 * 60 \<le> \<bar>dt\<bar>" "\<bar>dt\<bar> < 2 * 3600"
    | "\<bar>dt\<bar> < 2 * 60"
    by linarith
  then show ?thesis
  proof cases
    case 1
    then show ?thesis
      by (intro exI [of _ "''year''"] exI [of _ 31536000]) (simp add: units_def)
  next
    case 2
    then show ?thesis
      by (intro exI [of _ "''month''"] exI [of _ 2592000]) (simp add: units_def)
  next
    case 3
    then show ?thesis
      by (intro exI [of _ "''week''"] exI [of _ 604800]) (simp add: units_def)
  next
    case 4
    then show ?thesis
      by (intro exI [of _ "''day''"] exI [of _ 86400]) (simp add: units_def)
  next
    case 5
    then show ?thesis
      by (intro exI [of _ "''hour''"] exI [of _ 3600]) (simp add: units_def)
  next
    case 6
    then show ?thesis
      by (intro exI [of _ "''minute''"] exI [of _ 60]) (simp add: units_def)
  next
    case 7
    then show ?thesis
      by (intro exI [of _ "''second''"] exI [of _ 1]) (simp add: units_def)
  qed
qed

text \<open>
  Claim C8, amended. \<^verbatim>\<open>fuzzy_delta(0)\<close> is \<^verbatim>\<open>"now"\<close> with either flag. For any other
  \<open>dt\<close> the unit reported is the largest one with \<open>2 * interval \<le> \<bar>dt\<bar>\<close>, and the
  second when there is none (\<open>\<bar>dt\<bar> < 120\<close>); the number is \<open>\<bar>dt\<bar> div interval\<close>, with
  a plural \<^verbatim>\<open>s\<close> when it is above 1; without \<^verbatim>\<open>raw\<close> the text is framed by \<^verbatim>\<open>"in "\<close>
  for a positive and \<^verbatim>\<open>" ago"\<close> for a negative \<open>dt\<close>. So \<^verbatim>\<open>fuzzy_delta(3700, raw=True)\<close>
  is \<^verbatim>\<open>"about 61 minutes"\<close> and \<^verbatim>\<open>fuzzy_delta(-90000)\<close> is \<^verbatim>\<open>"about 25 hours ago"\<close>.
\<close>

theorem fuzzy_delta_selects_unit:
  "fuzzy_delta 0 raw = Inr ''now''
   \<and> (dt \<noteq> 0 \<and> (name, interval) \<in> set units
        \<and> (2 * interval \<le> \<bar>dt\<bar> \<or> interval = 1)
        \<and> (\<forall>u\<in>set units. interval < snd u \<longrightarrow> \<bar>dt\<bar> < 2 * snd u) \<longrightarrow>
        fuzzy_delta dt True = Inr (phrase dt name interval)
        \<and> fuzzy_delta dt False
            = Inr (if 0 < dt then ''in '' @ phrase dt name interval
                   else phrase dt name interval @ '' ago''))
   \<and> fuzzy_delta 3700 True = Inr ''about 61 minutes''
   \<and> fuzzy_delta 7200 True = Inr ''about 2 hours''
   \<and> fuzzy_delta (- 90000) False = Inr ''about 25 hours ago''
   \<and> fuzzy_delta (- 172800) False = Inr ''about 2 days ago''"
proof -
  have zero: "fuzzy_delta 0 raw = Inr ''now''"
    by (simp add: fuzzy_delta_def)
  have rule: "dt \<noteq> 0 \<and> (name, interval) \<in> set units
        \<and> (2 * interval \<le> \<bar>dt\<bar> \<or> interval = 1)
        \<and> (\<forall>u\<in>set units. interval < snd u \<longrightarrow> \<bar>dt\<bar> < 2 * snd u) \<longrightarrow>
        fuzzy_delta dt True = Inr (phrase dt name interval)
        \<and> fuzzy_delta dt False
            = Inr (if 0 < dt then ''in '' @ phrase dt name interval
                   else phrase dt name interval @ '' ago'')"
  proof (intro impI, elim conjE)
    assume nz: "dt \<noteq> 0" and mem: "(name, interval) \<in> set units"
      and ok: "2 * interval \<le> \<bar>dt\<bar> \<or> interval = 1"
      and big: "\<forall>u\<in>set units. interval < snd u \<longrightarrow> \<bar>dt\<bar> < 2 * snd u"
    from mem ok big have "fuzzy_loop dt units = Some (phrase dt name interval)"
      by (rule fuzzy_loop_selects)
    from this nz show "fuzzy_delta dt True = Inr (phrase dt name interval)
        \<and> fuzzy_delta dt False
            = Inr (if 0 < dt then ''in '' @ phrase dt name interval
                   else phrase dt name interval @ '' ago'')"
      by (rule fuzzy_delta_frames)
  qed
  have e1: "fuzzy_delta 3700 True = Inr ''about 61 minutes''"
    by (simp add: fuzzy_delta_def units_def format_d_def)
  have e2: "fuzzy_delta 7200 True = Inr ''about 2 hours''"
    by (simp add: fuzzy_delta_def units_def format_d_def)
  have e3: "fuzzy_delta (- 90000) False = Inr ''about 25 hours ago''"
    by (simp add: fuzzy_delta_def units_def format_d_def)
  have e4: "fuzzy_delta (- 172800) False = Inr ''about 2 days ago''"
    by (simp add: fuzzy_delta_def units_def format_d_def)
  show ?thesis
    by (intro conjI) (rule zero rule e1 e2 e3 e4)+
qed

theorem fuzzy_delta_selects_unit_witness:
  "(''minute'', 60) \<in> set units
   \<and> list_all (\<lambda>u. 60 < snd u \<longrightarrow> \<bar>3700 :: int\<bar> < 2 * snd u) units
   \<and> phrase 3700 ''minute'' 60 = ''about 61 minutes''
   \<and> fuzzy_delta 3700 True = Inr (phrase 3700 ''minute'' 60)
   \<and> fuzzy_delta 3700 False = Inr ''in about 61 minutes''
   \<and> (''second'', 1) \<in> set units
   \<and> list_all (\<lambda>u. 1 < snd u \<longrightarrow> \<bar>- 1 :: int\<bar> < 2 * snd u) units
   \<and> fuzzy_delta (- 1) True = Inr ''about 1 second''
   \<and> fuzzy_delta (- 1) False = Inr ''about 1 second ago''"
proof -
  have m: "(''minute'', 60) \<in> set units" and s: "(''second'', 1) \<in> set units"
    by (simp_all add: units_def)
  have bm: "\<forall>u\<in>set units. 60 < snd u \<longrightarrow> \<bar>3700 :: int\<bar> < 2 * snd u"
    by (simp add: units_def)
  have bs: "\<forall>u\<in>set units. 1 < snd u \<longrightarrow> \<bar>- 1 :: int\<bar> < 2 * snd u"
    by (simp add: units_def)
  have pm: "phrase 3700 ''minute'' 60 = ''about 61 minutes''"
    by (simp add: phrase_def format_d_def)
  have ps: "phrase (- 1) ''second'' 1 = ''about 1 second''"
    by (simp add: phrase_def format_d_def)
  from fuzzy_delta_selects_unit [where dt = 3700 and name = "''minute''" and interval = 60] m bm
  have rm: "fuzzy_delta 3700 True = Inr (phrase 3700 ''minute'' 60)
      \<and> fuzzy_delta 3700 False = Inr (''in '' @ phrase 3700 ''minute'' 60)"
    by simp
  from fuzzy_delta_selects_unit [where dt = "- 1" and name = "''second''" and interval = 1] s bs
  have rs: "fuzzy_delta (- 1) True = Inr (phrase (- 1) ''second'' 1)
      \<and> fuzzy_delta (- 1) False = Inr (phrase (- 1) ''second'' 1 @ '' ago'')"
    by simp
  from m s bm bs pm rm rs [unfolded ps] show ?thesis
    by (simp add: list_all_iff)
qed

text \<open>
  Claim C8 as stated fails: the result for 3700 does not start with \<^verbatim>\<open>"about 1 hour"\<close>,
  and the result for -90000 names hours, not days.
\<close>

theorem fuzzy_delta_3700_counterexample:
  "fuzzy_delta 3700 True = Inr ''about 61 minutes''
   \<and> take (length ''about 1 hour'') ''about 61 minutes'' \<noteq> ''about 1 hour''
   \<and> fuzzy_delta (- 90000) False = Inr ''about 25 hours ago''"
  by (simp add: fuzzy_delta_def units_def format_d_def)

section \<open>The summary\<close>

lemma main_loop_totals:
  "main_loop eng db (tc, tr) ids =
     (tc + len_py (filter (\<lambda>c. emulate eng c (get_review_log db c) \<noteq> None) ids),
      tr + sum_list (map (\<lambda>c. len_py (get_review_log db c) - 1)
                       (filter (\<lambda>c. emulate eng c (get_review_log db c) \<noteq> None) ids)))"
proof (induction ids arbitrary: tc tr)
  case Nil
  show ?case by (simp add: len_py_def)
next
  case (Cons c ids)
  show ?case
  proof (cases "emulate eng c (get_review_log db c)")
    case None
    then show ?thesis using Cons.IH [of tc tr] by simp
  next
    case (Some crd)
    then show ?thesis
      using Cons.IH [of "tc + 1" "tr + (len_py (get_review_log db c) - 1)"]
      by (simp add: len_py_def)
  qed
qed

lemma len_get_review_log:
  "len_py (get_review_log db c) = int (card (norm_ts ` set (select_revlog db c)))"
proof -
  have "length (get_review_log db c) = length (map fst (review_sessions (select_revlog db c)))"
    by (simp add: get_review_log_def)
  also have "\<dots> = card (norm_ts ` set (select_revlog db c))"
    unfolding review_sessions_keys by simp
  finally show ?thesis by (simp add: len_py_def)
qed

lemma main_raises_iff:
  "main eng db = Inl ZeroDivisionError \<longleftrightarrow> emulated_cards eng db = []"
  by (simp add: main_def main_loop_totals emulated_cards_def len_py_def)

text \<open>
  Claim C7. With no card in the database, or with cards none of which has a passing
  review, \<^verbatim>\<open>total_cards\<close> is 0 and the division in the summary line raises
  \<^verbatim>\<open>ZeroDivisionError\<close>: no summary is printed.
\<close>

theorem main_zero_cards_raises:
  "main eng \<lparr>cards = [], revlog = []\<rparr> = Inl ZeroDivisionError
   \<and> main eng \<lparr>cards = [1], revlog = [(5000, 1, 1)]\<rparr> = Inl ZeroDivisionError"
  by (simp add: main_def get_all_card_ids_def get_review_log_def select_revlog_def
        review_sessions_def emulate_def)

text \<open>
  Claim C10. The counters after the loop are the number of cards \<^verbatim>\<open>emulate\<close> returned a
  card for, and the sum over those cards of the number of sessions minus 1; they are
  what the summary line reports. The number of sessions of a card is the number of
  distinct normalised timestamps of its rows, so a card whose rows all have one
  normalised timestamp adds 0.
\<close>

theorem total_reviews_counts_sessions:
  "main_loop eng db (0, 0) (get_all_card_ids db)
     = (len_py (emulated_cards eng db),
        sum_list (map (\<lambda>c. len_py (get_review_log db c) - 1) (emulated_cards eng db)))
   \<and> (main eng db = Inr (n, m, avg) \<longrightarrow>
        n = len_py (emulated_cards eng db)
        \<and> m = sum_list (map (\<lambda>c. len_py (get_review_log db c) - 1) (emulated_cards eng db)))
   \<and> len_py (get_review_log db c) = int (card (norm_ts ` set (select_revlog db c)))
   \<and> (select_revlog db c \<noteq> [] \<and> (\<forall>row\<in>set (select_revlog db c). norm_ts row = t) \<longrightarrow>
        len_py (get_review_log db c) - 1 = 0)"
proof -
  have loop: "main_loop eng db (0, 0) (get_all_card_ids db)
     = (len_py (emulated_cards eng db),
        sum_list (map (\<lambda>c. len_py (get_review_log db c) - 1) (emulated_cards eng db)))"
    by (simp add: main_loop_totals emulated_cards_def)
  have summary: "n = len_py (emulated_cards eng db)
        \<and> m = sum_list (map (\<lambda>c. len_py (get_review_log db c) - 1) (emulated_cards eng db))"
    if "main eng db = Inr (n, m, avg)"
    using that unfolding main_def loop by (simp split: if_splits)
  have one: "len_py (get_review_log db c) - 1 = 0"
    if "select_revlog db c \<noteq> [] \<and> (\<forall>row\<in>set (select_revlog db c). norm_ts row = t)"
  proof -
    from that obtain r rs where "select_revlog db c = r # rs"
      by (cases "select_revlog db c") auto
    with that have "norm_ts ` set (select_revlog db c) = {t}" by auto
    then show ?thesis by (simp add: len_get_review_log)
  qed
  from loop summary one len_get_review_log [of db c] show ?thesis by blast
qed

theorem total_reviews_counts_sessions_witness:
  "main recording
     \<lparr>cards = [1, 2, 3],
      revlog = [(100000, 1, 3), (100500, 1, 1), (100900, 1, 3), (5000, 2, 1),
                (200000, 3, 3), (300000, 3, 1), (300001, 3, 3)]\<rparr>
     = Inr (2, 1, 1 / 2)
   \<and> emulated_cards recording
     \<lparr>cards = [1, 2, 3],
      revlog = [(100000, 1, 3), (100500, 1, 1), (100900, 1, 3), (5000, 2, 1),
                (200000, 3, 3), (300000, 3, 1), (300001, 3, 3)]\<rparr> = [1, 3]
   \<and> len_py (get_review_log
     \<lparr>cards = [1, 2, 3],
      revlog = [(100000, 1, 3), (100500, 1, 1), (100900, 1, 3), (5000, 2, 1),
                (200000, 3, 3), (300000, 3, 1), (300001, 3, 3)]\<rparr> 1) - 1 = 0"
proof -
  let ?db = "\<lparr>cards = [1, 2, 3],
      revlog = [(100000, 1, 3), (100500, 1, 1), (100900, 1, 3), (5000, 2, 1),
                (200000, 3, 3), (300000, 3, 1), (300001, 3, 3)]\<rparr>"
  have l1: "get_review_log ?db 1 = [(100, [True, False, True])]"
    by (simp add: get_review_log_def select_revlog_def review_sessions_def)
  have l2: "get_review_log ?db 2 = [(5, [False])]"
    by (simp add: get_review_log_def select_revlog_def review_sessions_def)
  have l3: "get_review_log ?db 3 = [(200, [True]), (300, [False, True])]"
    by (simp add: get_review_log_def select_revlog_def review_sessions_def)
  have ids: "get_all_card_ids ?db = [1, 2, 3]"
    by (simp add: get_all_card_ids_def)
  have m: "main recording ?db = Inr (2, 1, 1 / 2)"
    by (simp add: main_def ids l1 l2 l3 emulate_def len_py_def)
  have e: "emulated_cards recording ?db = [1, 3]"
    by (simp add: emulated_cards_def ids l1 l2 l3 emulate_def)
  have h: "select_revlog ?db 1 \<noteq> [] \<and> (\<forall>row\<in>set (select_revlog ?db 1). norm_ts row = 100)"
    by (simp add: select_revlog_def norm_ts_def)
  from total_reviews_counts_sessions [of recording ?db 2 1 "1 / 2" 1 100] m h
  have "2 = len_py (emulated_cards recording ?db)
      \<and> len_py (get_review_log ?db 1) - 1 = 0"
    by blast
  with m e show ?thesis by simp
qed

end
